theory Spec2Isabelle
  imports Complex_Main
begin

section \<open>Portfolio growth calculator: the solver and the projection builder\<close>

text \<open>
  The development embeds the two core functions of \<^verbatim>\<open>streamlit_app.py\<close>:
  \<^verbatim>\<open>calculate_years_to_target\<close> (the closed-form time-to-target solver) and
  \<^verbatim>\<open>build_projection_table\<close> (the month-by-month simulation).

  Numbers. A finite Python \<^verbatim>\<open>float\<close> is read as a \<^typ>\<open>real\<close> and the arithmetic
  is exact; \<^verbatim>\<open>float("inf")\<close> is a constructor of its own. The operations of the
  source that can raise are modelled with their exception as a value:
  \<^verbatim>\<open>a / b\<close> raises \<^verbatim>\<open>ZeroDivisionError\<close> when \<^verbatim>\<open>b == 0\<close>, and
  \<^verbatim>\<open>math.log(x)\<close> raises \<^verbatim>\<open>ValueError\<close> when \<^verbatim>\<open>x <= 0\<close>.

  The values that the functions return are studied in exact arithmetic. Whether the
  solver can raise depends on the rounding of the float operations, so for that
  question the solver is embedded a second time, with binary64 rounding after every
  operation.
\<close>

subsection \<open>Values and errors\<close>

datatype py_error = ZeroDivisionError | ValueError

text \<open>The result of the solver: a finite float, or \<^verbatim>\<open>float("inf")\<close>.\<close>

datatype py_float = Finite real | Infinity

fun bind_error :: "py_error + 'a \<Rightarrow> ('a \<Rightarrow> py_error + 'b) \<Rightarrow> py_error + 'b" where
  "bind_error (Inl e) f = Inl e"
| "bind_error (Inr x) f = f x"

definition py_div :: "real \<Rightarrow> real \<Rightarrow> py_error + real" where
  "py_div a b = (if b = 0 then Inl ZeroDivisionError else Inr (a / b))"

definition math_log :: "real \<Rightarrow> py_error + real" where
  "math_log x = (if x \<le> 0 then Inl ValueError else Inr (ln x))"

subsection \<open>Rounding to two decimals\<close>

text \<open>
  Python's \<^verbatim>\<open>round(x, 2)\<close> rounds to the nearest multiple of 0.01 and, when \<^verbatim>\<open>x\<close>
  lies exactly half way, to the one whose last digit is even.
\<close>

definition round_half_even :: "real \<Rightarrow> int" where
  "round_half_even y =
     (let f = \<lfloor>y\<rfloor>; d = y - of_int f
      in if d < 1 / 2 then f
         else if 1 / 2 < d then f + 1
         else if even f then f else f + 1)"

definition round2 :: "real \<Rightarrow> real" where
  "round2 x = of_int (round_half_even (x * 100)) / 100"

subsection \<open>The solver\<close>

text \<open>
  \<^verbatim>\<open>calculate_years_to_target(current_value, target_value, annual_rate,
  monthly_contribution)\<close>, branch by branch in the order of the source.
\<close>

definition calculate_years_to_target :: "real \<Rightarrow> real \<Rightarrow> real \<Rightarrow> real \<Rightarrow> py_error + py_float" where
  "calculate_years_to_target current_value target_value annual_rate monthly_contribution =
     (if current_value \<ge> target_value then Inr (Finite 0)
      else if annual_rate \<le> 0 then
        (if monthly_contribution \<le> 0 then Inr Infinity
         else
           let remaining = target_value - current_value in
           bind_error (py_div remaining monthly_contribution) (\<lambda>months.
           Inr (Finite (round2 (months / 12)))))
      else
        let r = annual_rate / 12; pmt = monthly_contribution in
        if pmt = 0 then
          (if current_value \<le> 0 then Inr Infinity
           else
             bind_error (py_div target_value current_value) (\<lambda>q.
             bind_error (math_log q) (\<lambda>lq.
             bind_error (math_log (1 + r)) (\<lambda>l1.
             bind_error (py_div lq l1) (\<lambda>months.
             Inr (Finite (round2 (months / 12))))))))
        else
          bind_error (py_div pmt r) (\<lambda>pr.
          let numerator = target_value + pr in
          bind_error (py_div pmt r) (\<lambda>pr'.
          let denominator = current_value + pr' in
          if denominator \<le> 0 then Inr Infinity
          else
            bind_error (py_div numerator denominator) (\<lambda>ratio.
            if ratio \<le> 0 then Inr Infinity
            else
              bind_error (math_log ratio) (\<lambda>lr.
              bind_error (math_log (1 + r)) (\<lambda>l1.
              bind_error (py_div lr l1) (\<lambda>months.
              Inr (Finite (round2 (months / 12))))))))))"

subsection \<open>The projection builder\<close>

text \<open>One row of the table, with the column names of the source.\<close>

record projection_row =
  Year :: int
  Starting_Balance :: real
  Contributions :: real
  Growth :: real
  Ending_Balance :: real

text \<open>
  The variables that the inner loop updates: the running \<^verbatim>\<open>balance\<close> of the function
  and the two accumulators of the current year.
\<close>

record year_state =
  balance :: real
  growth_this_year :: real
  contributions_this_year :: real

text \<open>The body of \<^verbatim>\<open>for _ in range(12)\<close>: one simulated month.\<close>

definition month_step :: "real \<Rightarrow> real \<Rightarrow> year_state \<Rightarrow> year_state" where
  "month_step monthly_rate monthly_contribution s =
     (let interest = balance s * monthly_rate
      in \<lparr> balance = balance s + (interest + monthly_contribution),
           growth_this_year = growth_this_year s + interest,
           contributions_this_year = contributions_this_year s + monthly_contribution \<rparr>)"

primrec month_loop :: "nat \<Rightarrow> real \<Rightarrow> real \<Rightarrow> year_state \<Rightarrow> year_state" where
  "month_loop 0 monthly_rate monthly_contribution s = s"
| "month_loop (Suc n) monthly_rate monthly_contribution s =
     month_loop n monthly_rate monthly_contribution (month_step monthly_rate monthly_contribution s)"

text \<open>The dictionary appended after the twelve months of a year.\<close>

definition make_row :: "int \<Rightarrow> year_state \<Rightarrow> projection_row" where
  "make_row year s =
     \<lparr> Year = year,
       Starting_Balance = round2 (balance s - growth_this_year s - contributions_this_year s),
       Contributions = round2 (contributions_this_year s),
       Growth = round2 (growth_this_year s),
       Ending_Balance = round2 (balance s) \<rparr>"

text \<open>
  The outer loop \<^verbatim>\<open>for year in range(1, total_years + 1)\<close> over the list of the
  years, threading the running balance and the rows collected so far.
\<close>

fun year_loop :: "real \<Rightarrow> real \<Rightarrow> int list \<Rightarrow> real \<Rightarrow> projection_row list \<Rightarrow> projection_row list" where
  "year_loop monthly_rate monthly_contribution [] bal rows = rows"
| "year_loop monthly_rate monthly_contribution (year # ys) bal rows =
     (let s = month_loop 12 monthly_rate monthly_contribution
                \<lparr> balance = bal, growth_this_year = 0, contributions_this_year = 0 \<rparr>
      in year_loop monthly_rate monthly_contribution ys (balance s) (rows @ [make_row year s]))"

text \<open>\<^verbatim>\<open>int(math.ceil(years)) if years != float("inf") else 30\<close>\<close>

definition total_years_of :: "py_float \<Rightarrow> int" where
  "total_years_of years = (case years of Infinity \<Rightarrow> 30 | Finite y \<Rightarrow> \<lceil>y\<rceil>)"

definition build_projection_table :: "real \<Rightarrow> real \<Rightarrow> real \<Rightarrow> py_float \<Rightarrow> projection_row list" where
  "build_projection_table current_value annual_rate monthly_contribution years =
     (let bal = current_value;
          monthly_rate = annual_rate / 12;
          total_years = total_years_of years
      in year_loop monthly_rate monthly_contribution [1..total_years] bal [])"

subsection \<open>The builder with the starting balance tracked directly\<close>




subsection \<open>The solver in binary64 arithmetic\<close>

text \<open>
  Exact arithmetic hides one thing the interpreter does: every float operation rounds
  its result to the nearest binary64 number, and a divisor that is not zero in exact
  arithmetic can round to zero. To see where the solver can raise, it is embedded a
  second time with the rounding written out.

  \<open>binary64 x\<close> is the number with a 53-bit significand nearest to \<open>x\<close>, ties to the even
  significand. The exponent range is not bounded here (no overflow to infinity, no
  underflow to zero).
\<close>

definition binary64 :: "real \<Rightarrow> real" where
  "binary64 x =
     (if x = 0 then 0
      else
        let e = \<lfloor>log 2 \<bar>x\<bar>\<rfloor>;
            ulp = 2 powr (of_int e - 52)
        in of_int (round_half_even (x / ulp)) * ulp)"

definition fp_div :: "real \<Rightarrow> real \<Rightarrow> py_error + real" where
  "fp_div a b = (if b = 0 then Inl ZeroDivisionError else Inr (binary64 (a / b)))"

definition fp_log :: "real \<Rightarrow> py_error + real" where
  "fp_log x = (if x \<le> 0 then Inl ValueError else Inr (binary64 (ln x)))"

text \<open>
  The same function as \<open>calculate_years_to_target\<close>, each operation followed by its
  rounding; \<^verbatim>\<open>round(x, 2)\<close> returns the float nearest to the decimal it rounds to.
\<close>

definition calculate_years_to_target_fp :: "real \<Rightarrow> real \<Rightarrow> real \<Rightarrow> real \<Rightarrow> py_error + py_float" where
  "calculate_years_to_target_fp current_value target_value annual_rate monthly_contribution =
     (if current_value \<ge> target_value then Inr (Finite 0)
      else if annual_rate \<le> 0 then
        (if monthly_contribution \<le> 0 then Inr Infinity
         else
           let remaining = binary64 (target_value - current_value) in
           bind_error (fp_div remaining monthly_contribution) (\<lambda>months.
           Inr (Finite (binary64 (round2 (binary64 (months / 12)))))))
      else
        let r = binary64 (annual_rate / 12); pmt = monthly_contribution in
        if pmt = 0 then
          (if current_value \<le> 0 then Inr Infinity
           else
             bind_error (fp_div target_value current_value) (\<lambda>q.
             bind_error (fp_log q) (\<lambda>lq.
             bind_error (fp_log (binary64 (1 + r))) (\<lambda>l1.
             bind_error (fp_div lq l1) (\<lambda>months.
             Inr (Finite (binary64 (round2 (binary64 (months / 12))))))))))
        else
          bind_error (fp_div pmt r) (\<lambda>pr.
          let numerator = binary64 (target_value + pr) in
          bind_error (fp_div pmt r) (\<lambda>pr'.
          let denominator = binary64 (current_value + pr') in
          if denominator \<le> 0 then Inr Infinity
          else
            bind_error (fp_div numerator denominator) (\<lambda>ratio.
            if ratio \<le> 0 then Inr Infinity
            else
              bind_error (fp_log ratio) (\<lambda>lr.
              bind_error (fp_log (binary64 (1 + r))) (\<lambda>l1.
              bind_error (fp_div lr l1) (\<lambda>months.
              Inr (Finite (binary64 (round2 (binary64 (months / 12))))))))))))"

subsection \<open>Notions used by the specification\<close>



section \<open>Properties of the solver\<close>




text \<open>
  C5. When \<open>current \<ge> target\<close> the solver returns 0, whatever the rate and the
  contribution are; the test is the first of the function, so it wins over every other
  branch (also over those that return the unreachable sentinel). In particular
  \<open>solve(1000, 500, 0.08, 100) = 0\<close>.
\<close>

theorem already_met_returns_zero:
  "(target_value \<le> current_value \<longrightarrow>
      calculate_years_to_target current_value target_value annual_rate monthly_contribution
        = Inr (Finite 0))
   \<and> calculate_years_to_target 1000 500 (8 / 100) 100 = Inr (Finite 0)"
  by (simp add: calculate_years_to_target_def)

theorem already_met_returns_zero_witness:
  "(5::real) \<le> 7 \<and> calculate_years_to_target 7 5 0 0 = Inr (Finite 0)"
  using already_met_returns_zero [of 5 7 0 0] by simp



lemma pure_compounding_value:
  assumes "0 < current_value" and "current_value < target_value" and "0 < annual_rate"
  shows "calculate_years_to_target current_value target_value annual_rate 0 =
      Inr (Finite (round2 (ln (target_value / current_value) / ln (1 + annual_rate / 12) / 12)))"
proof -
  from assms(1,2) have "0 < target_value / current_value" by simp
  then have q: "math_log (target_value / current_value) = Inr (ln (target_value / current_value))"
    by (simp add: math_log_def)
  from assms(3) have l: "math_log (1 + annual_rate / 12) = Inr (ln (1 + annual_rate / 12))"
    by (simp add: math_log_def)
  from assms(3) have z: "ln (1 + annual_rate / 12) \<noteq> 0" by simp
  from assms show ?thesis
    by (simp add: calculate_years_to_target_def py_div_def q l z Let_def)
qed





section \<open>Rounding\<close>

lemma round_half_even_error: "\<bar>of_int (round_half_even y) - y\<bar> \<le> 1 / 2"
  unfolding round_half_even_def Let_def by (auto simp: abs_le_iff)


lemma round_half_even_mono: "x \<le> y \<Longrightarrow> round_half_even x \<le> round_half_even y"
proof -
  have lo: "\<lfloor>z\<rfloor> \<le> round_half_even z" and hi: "round_half_even z \<le> \<lfloor>z\<rfloor> + 1" for z
    by (auto simp: round_half_even_def Let_def)
  assume xy: "x \<le> y"
  then have "\<lfloor>x\<rfloor> \<le> \<lfloor>y\<rfloor>" by (rule floor_mono)
  then consider "\<lfloor>x\<rfloor> < \<lfloor>y\<rfloor>" | "\<lfloor>x\<rfloor> = \<lfloor>y\<rfloor>" by linarith
  then show ?thesis
  proof cases
    case 1
    with hi [of x] lo [of y] show ?thesis by linarith
  next
    case 2
    with xy show ?thesis by (auto simp: round_half_even_def Let_def)
  qed
qed

lemma round2_mono: "x \<le> y \<Longrightarrow> round2 x \<le> round2 y"
  unfolding round2_def by (simp add: round_half_even_mono divide_right_mono)


section \<open>Properties of the projection builder\<close>

subsection \<open>The loops\<close>

lemma year_loop_append:
  "year_loop mr mc ys bal rows = rows @ year_loop mr mc ys bal []"
proof (induction ys arbitrary: bal rows)
  case Nil
  then show ?case by simp
next
  case (Cons y ys)
  show ?case
    by (simp add: Let_def Cons.IH [of _ "rows @ _"] Cons.IH [of _ "[_]"])
qed

lemma length_year_loop: "length (year_loop mr mc ys bal rows) = length rows + length ys"
  by (induction ys arbitrary: bal rows) (simp_all add: Let_def)

lemma length_build_projection_table:
  "length (build_projection_table c a p years) = nat (total_years_of years)"
  by (simp add: build_projection_table_def Let_def length_year_loop)



subsection \<open>Number of rows\<close>

text \<open>
  C6. For a finite horizon \<open>y \<ge> 0\<close> the table has exactly \<open>\<lceil>y\<rceil>\<close> rows, none for
  \<open>y = 0\<close>; for the unreachable sentinel it has exactly 30 rows. The builder is a total
  function here: none of its operations can raise (its only division is by the
  constant 12).
\<close>

theorem row_count:
  "(0 \<le> y \<longrightarrow> int (length (build_projection_table c a p (Finite y))) = \<lceil>y\<rceil>)
   \<and> build_projection_table c a p (Finite 0) = []
   \<and> length (build_projection_table c a p Infinity) = 30"
  by (auto simp add: build_projection_table_def total_years_of_def Let_def length_year_loop)

theorem row_count_witness:
  "(0::real) \<le> 5 / 2 \<and> int (length (build_projection_table 1000 (8 / 100) 100 (Finite (5 / 2)))) = 3"
  using row_count [of "5 / 2" 1000 "8 / 100" 100] by simp

subsection \<open>The row-sum invariant\<close>








subsection \<open>Monotone balances\<close>

lemma month_step_nonneg:
  assumes "0 \<le> mr" "0 \<le> mc" "0 \<le> balance s"
  shows "balance s \<le> balance (month_step mr mc s)"
  using assms by (simp add: month_step_def Let_def)

lemma month_loop_nondecreasing:
  assumes "0 \<le> mr" "0 \<le> mc" "0 \<le> balance s"
  shows "balance s \<le> balance (month_loop n mr mc s)"
  using assms(3)
proof (induction n arbitrary: s)
  case 0
  then show ?case by simp
next
  case (Suc n)
  have step: "balance s \<le> balance (month_step mr mc s)"
    using assms(1,2) Suc.prems by (rule month_step_nonneg)
  with Suc.prems have "0 \<le> balance (month_step mr mc s)" by linarith
  from Suc.IH [OF this] step show ?case by simp
qed

lemma year_loop_sorted:
  assumes "0 \<le> mr" "0 \<le> mc" "0 \<le> bal"
  shows "sorted (map Ending_Balance (year_loop mr mc ys bal []))
    \<and> (\<forall>row \<in> set (year_loop mr mc ys bal []). round2 bal \<le> Ending_Balance row)"
  using assms(3)
proof (induction ys arbitrary: bal)
  case Nil
  then show ?case by simp
next
  case (Cons y ys)
  let ?s = "month_loop 12 mr mc \<lparr>balance = bal, growth_this_year = 0, contributions_this_year = 0\<rparr>"
  have up: "bal \<le> balance ?s"
    using month_loop_nondecreasing [OF assms(1,2),
        of "\<lparr>balance = bal, growth_this_year = 0, contributions_this_year = 0\<rparr>" 12]
      Cons.prems by simp
  with Cons.prems have "0 \<le> balance ?s" by linarith
  note ih = Cons.IH [OF this]
  have unfold: "year_loop mr mc (y # ys) bal [] = make_row y ?s # year_loop mr mc ys (balance ?s) []"
    using year_loop_append [of mr mc ys "balance ?s" "[make_row y ?s]"] by (simp add: Let_def)
  have e: "Ending_Balance (make_row y ?s) = round2 (balance ?s)" by (simp add: make_row_def)
  have le: "round2 bal \<le> round2 (balance ?s)" using up by (rule round2_mono)
  show ?case unfolding unfold using ih e le by (auto simp del: year_loop.simps)
qed

text \<open>
  C8. For a non-negative starting value, a non-negative annual rate and a non-negative
  monthly contribution, the ending balance of each row is at least the ending balance
  of the row before it.
\<close>

theorem ending_balance_monotone:
  assumes "0 \<le> current_value" and "0 \<le> annual_rate" and "0 \<le> monthly_contribution"
  shows "\<forall>i. Suc i < length (build_projection_table current_value annual_rate monthly_contribution years) \<longrightarrow>
     Ending_Balance (build_projection_table current_value annual_rate monthly_contribution years ! i)
       \<le> Ending_Balance (build_projection_table current_value annual_rate monthly_contribution years ! Suc i)"
proof (intro allI impI)
  fix i
  let ?rows = "build_projection_table current_value annual_rate monthly_contribution years"
  assume i: "Suc i < length ?rows"
  from assms(2) have "0 \<le> annual_rate / 12" by simp
  from year_loop_sorted [OF this assms(3) assms(1)]
  have "sorted (map Ending_Balance ?rows)"
    by (simp add: build_projection_table_def Let_def)
  from sorted_nth_mono [OF this, of i "Suc i"] i
  show "Ending_Balance (?rows ! i) \<le> Ending_Balance (?rows ! Suc i)" by simp
qed

theorem ending_balance_monotone_witness:
  "(0::real) \<le> 1000 \<and> (0::real) \<le> 12 / 100 \<and> (0::real) \<le> 100
   \<and> Suc 0 < length (build_projection_table 1000 (12 / 100) 100 (Finite 2))
   \<and> Ending_Balance (build_projection_table 1000 (12 / 100) 100 (Finite 2) ! 0)
       \<le> Ending_Balance (build_projection_table 1000 (12 / 100) 100 (Finite 2) ! Suc 0)"
proof -
  have len: "Suc 0 < length (build_projection_table 1000 (12 / 100) 100 (Finite 2))"
    by (simp add: length_build_projection_table total_years_of_def)
  from ending_balance_monotone [of 1000 "12 / 100" 100 "Finite 2"] len
  show ?thesis by simp
qed

subsection \<open>The starting balance\<close>







subsection \<open>Pure compounding and the doubling time\<close>





lemma round_half_even_eqI:
  assumes "of_int n \<le> x" and "x < of_int n + 1 / 2"
  shows "round_half_even x = n"
proof -
  from assms have "\<lfloor>x\<rfloor> = n" by (intro floor_unique) auto
  with assms show ?thesis by (simp add: round_half_even_def Let_def)
qed
















section \<open>Where the solver can raise\<close>

text \<open>
  In exact arithmetic no exception is reachable: every divisor and every argument of a
  logarithm is positive where it is used. This is the algebraic argument of the
  specification (the case \<open>rate \<le> 0\<close> is split off before any division by the rate).
\<close>

lemma exact_solver_never_raises:
  "\<exists>v. calculate_years_to_target current_value target_value annual_rate monthly_contribution = Inr v"
proof -
  consider (met) "target_value \<le> current_value"
    | (flat) "current_value < target_value" "annual_rate \<le> 0"
    | (pure) "current_value < target_value" "0 < annual_rate" "monthly_contribution = 0"
    | (pos) "current_value < target_value" "0 < annual_rate" "monthly_contribution \<noteq> 0"
    by linarith
  then show ?thesis
  proof cases
    case met
    then show ?thesis by (simp add: calculate_years_to_target_def)
  next
    case flat
    then show ?thesis by (simp add: calculate_years_to_target_def py_div_def)
  next
    case pure
    show ?thesis
    proof (cases "current_value \<le> 0")
      case True
      with pure show ?thesis by (simp add: calculate_years_to_target_def)
    next
      case False
      with pure pure_compounding_value [of current_value target_value annual_rate]
      show ?thesis by simp
    qed
  next
    case pos
    then show ?thesis
      by (auto simp add: calculate_years_to_target_def py_div_def math_log_def Let_def)
  qed
qed

subsection \<open>Binary64 rounding\<close>

lemma binary64_pos_bounds:
  assumes "0 < x"
  shows "0 < binary64 x" and "binary64 x \<le> 2 * x"
proof -
  define e where "e = \<lfloor>log 2 \<bar>x\<bar>\<rfloor>"
  define u :: real where "u = 2 powr (of_int e - 52)"
  have u: "0 < u" by (simp add: u_def)
  have b: "binary64 x = of_int (round_half_even (x / u)) * u"
    using assms by (simp add: binary64_def e_def u_def Let_def)
  have "2 powr (of_int e) \<le> x"
    using floor_log_eq_powr_iff [of x 2 e] assms by (simp add: e_def)
  moreover have "2 powr (of_int e) = 2 ^ 52 * u"
    by (simp add: u_def powr_diff)
  ultimately have "2 ^ 52 * u \<le> x" by simp
  with u have big: "2 ^ 52 \<le> x / u" by (simp add: pos_le_divide_eq)
  have lo: "of_int \<lfloor>x / u\<rfloor> \<le> (of_int (round_half_even (x / u)) :: real)"
    by (auto simp: round_half_even_def Let_def)
  have "(1::real) \<le> 2 ^ 52" by simp
  with big have "1 \<le> x / u" by linarith
  then have "1 \<le> \<lfloor>x / u\<rfloor>" by simp
  then have "(1 :: real) \<le> of_int \<lfloor>x / u\<rfloor>" by simp
  with lo have "0 < (of_int (round_half_even (x / u)) :: real)" by linarith
  with u show "0 < binary64 x" by (simp add: b)
  have "\<bar>of_int (round_half_even (x / u)) - x / u\<bar> \<le> 1 / 2" by (rule round_half_even_error)
  with \<open>1 \<le> x / u\<close> have "of_int (round_half_even (x / u)) \<le> 2 * (x / u)" by linarith
  with u have "of_int (round_half_even (x / u)) * u \<le> 2 * (x / u) * u"
    by (intro mult_right_mono) simp_all
  with u show "binary64 x \<le> 2 * x" by (simp add: b)
qed

lemma binary64_near_one:
  assumes "0 \<le> r" and "r < 1 / 2 ^ 53"
  shows "binary64 (1 + r) = 1"
proof -
  have r1: "r < 1" using assms(2) by (rule less_le_trans) (simp add: divide_le_eq)
  have e: "\<lfloor>log 2 \<bar>1 + r\<bar>\<rfloor> = 0"
    using floor_log_eq_powr_iff [of "1 + r" 2 0] assms(1) r1 by simp
  have u: "(2::real) powr (- 52) = 1 / 2 ^ 52"
    by (simp add: powr_minus_divide)
  have rnd: "round_half_even ((1 + r) * 2 ^ 52) = 2 ^ 52"
  proof (rule round_half_even_eqI)
    show "of_int (2 ^ 52) \<le> (1 + r) * 2 ^ 52" using assms(1) by (simp add: algebra_simps)
    have "r * 2 ^ 52 < 1 / 2" using assms(2) by (simp add: field_simps)
    then show "(1 + r) * 2 ^ 52 < of_int (2 ^ 52) + 1 / 2" by (simp add: algebra_simps)
  qed
  have ne: "1 + r \<noteq> 0" using assms(1) by simp
  have "binary64 (1 + r) = of_int (round_half_even ((1 + r) / (1 / 2 ^ 52))) * (1 / 2 ^ 52)"
    unfolding binary64_def Let_def e using ne by (simp only: if_False of_int_0 diff_0 u)
  also have "(1 + r) / (1 / 2 ^ 52) = (1 + r) * 2 ^ 52" by simp
  finally show ?thesis by (simp only: rnd) simp
qed


lemma binary64_0: "binary64 0 = 0"
  by (simp add: binary64_def)

lemma tiny_rate_monthly:
  "0 < binary64 (1 / 10 ^ 17)"
  "binary64 (1 + binary64 (binary64 (1 / 10 ^ 17) / 12)) = 1"
proof -
  let ?a = "binary64 (1 / 10 ^ 17)"
  let ?r = "binary64 (?a / 12)"
  have a: "0 < ?a" "?a \<le> 2 * (1 / 10 ^ 17)"
    by (rule binary64_pos_bounds, simp)+
  then have "0 < ?a / 12" by simp
  then have r: "0 < ?r" "?r \<le> 2 * (?a / 12)"
    by (rule binary64_pos_bounds)+
  from a(2) r(2) have "?r \<le> 4 / (12 * 10 ^ 17)" by simp
  also have "\<dots> < 1 / 2 ^ 53" by simp
  finally have "?r < 1 / 2 ^ 53" .
  with r(1) show "binary64 (1 + ?r) = 1" by (intro binary64_near_one) simp_all
  show "0 < ?a" by (rule a(1))
qed

text \<open>
  C7 asks that the solver never raises for any finite input. The interpreter does raise
  for \<open>solve(1000, 2000, 1e-17, 0)\<close>: the monthly rate \<open>r\<close> is about \<open>8.3e-19\<close>,
  \<open>1 + r\<close> rounds to \<open>1.0\<close>, \<^verbatim>\<open>math.log(1 + r)\<close> is \<open>0.0\<close>, and the division
  \<^verbatim>\<open>math.log(target_value / current_value) / math.log(1 + r)\<close> raises
  \<^verbatim>\<open>ZeroDivisionError\<close>. The other divisors and logarithm arguments of the function are
  guarded; this one is not.
\<close>

theorem tiny_rate_raises:
  "calculate_years_to_target_fp 1000 2000 (binary64 (1 / 10 ^ 17)) 0 = Inl ZeroDivisionError"
proof -
  have q: "fp_log (binary64 2) = Inr (binary64 (ln (binary64 2)))"
    using binary64_pos_bounds(1) [of 2] by (simp add: fp_log_def)
  have l: "fp_log 1 = Inr 0"
    by (simp add: fp_log_def binary64_0)
  from tiny_rate_monthly(1) have "\<not> binary64 (1 / 10 ^ 17) \<le> 0" by simp
  then show ?thesis
    unfolding calculate_years_to_target_fp_def Let_def
    by (simp only: tiny_rate_monthly(2) l fp_div_def bind_error.simps if_True if_False)
      (simp add: q)
qed


text \<open>
  This is the only way in which the solver with rounding raises: the rate is positive
  and so small that \<open>1 + rate / 12\<close> rounds to 1.
\<close>

lemma binary64_neg:
  assumes "x < 0"
  shows "binary64 x < 0"
proof -
  define e where "e = \<lfloor>log 2 \<bar>x\<bar>\<rfloor>"
  define u :: real where "u = 2 powr (of_int e - 52)"
  have u: "0 < u" by (simp add: u_def)
  have b: "binary64 x = of_int (round_half_even (x / u)) * u"
    using assms by (simp add: binary64_def e_def u_def Let_def)
  have "2 powr (of_int e) \<le> - x"
    using floor_log_eq_powr_iff [of "- x" 2 e] assms by (simp add: e_def)
  moreover have "2 powr (of_int e) = 2 ^ 52 * u"
    by (simp add: u_def powr_diff)
  ultimately have "2 ^ 52 * u \<le> - x" by simp
  then have "x \<le> - (2 ^ 52) * u" by simp
  with u have "x / u \<le> - (2 ^ 52)" by (simp only: pos_divide_le_eq)
  moreover have "- (2 ^ 52) \<le> (- 2 :: real)" by simp
  ultimately have "x / u \<le> - 2" by (rule order_trans)
  then have "\<lfloor>x / u\<rfloor> \<le> - 2" by (simp add: floor_le_iff)
  moreover have "round_half_even (x / u) \<le> \<lfloor>x / u\<rfloor> + 1"
    by (auto simp: round_half_even_def Let_def)
  ultimately have "round_half_even (x / u) < 0" by linarith
  then have "(of_int (round_half_even (x / u)) :: real) < 0" by simp
  with u show ?thesis by (simp add: b mult_neg_pos)
qed

lemma binary64_eq_0_iff: "binary64 x = 0 \<longleftrightarrow> x = 0"
  using binary64_pos_bounds(1) [of x] binary64_neg [of x] binary64_0
  by (cases "x = 0"; cases "0 < x") auto

lemma fp_solver_raises_only_near_one:
  assumes "calculate_years_to_target_fp current_value target_value annual_rate monthly_contribution = Inl e"
  shows "e = ZeroDivisionError \<and> 0 < annual_rate
    \<and> binary64 (1 + binary64 (annual_rate / 12)) = 1"
proof (rule ccontr)
  assume neg: "\<not> ?thesis"
  have rate: "0 < annual_rate" and lt: "current_value < target_value"
    using assms
    by (auto simp add: calculate_years_to_target_fp_def fp_div_def Let_def split: if_splits)
  let ?r = "binary64 (annual_rate / 12)"
  let ?z = "binary64 (1 + ?r)"
  from rate have r: "0 < ?r" by (intro binary64_pos_bounds(1)) simp
  then have z: "0 < ?z" by (intro binary64_pos_bounds(1)) simp
  then have lz: "fp_log ?z = Inr (binary64 (ln ?z))" by (simp add: fp_log_def)
  have div: "fp_div a (binary64 (ln ?z)) =
      (if ?z = 1 then Inl ZeroDivisionError else Inr (binary64 (a / binary64 (ln ?z))))" for a
    using z by (simp add: fp_div_def binary64_eq_0_iff)
  show False
  proof (cases "monthly_contribution = 0")
    case True
    with assms rate lt have pos: "0 < current_value"
      by (auto simp add: calculate_years_to_target_fp_def split: if_splits)
    with lt have "0 < target_value / current_value" by simp
    then have "0 < binary64 (target_value / current_value)" by (rule binary64_pos_bounds(1))
    then have lq: "fp_log (binary64 (target_value / current_value))
        = Inr (binary64 (ln (binary64 (target_value / current_value))))"
      by (simp add: fp_log_def)
    have dq: "fp_div target_value current_value = Inr (binary64 (target_value / current_value))"
      using pos by (simp add: fp_div_def)
    from assms True rate lt pos neg show False
      unfolding calculate_years_to_target_fp_def Let_def
      by (simp add: dq lq lz div split: if_splits)
  next
    case False
    have dr: "fp_div monthly_contribution ?r = Inr (binary64 (monthly_contribution / ?r))"
      using r by (simp add: fp_div_def)
    have dok: "fp_div a b = Inr (binary64 (a / b))" if "\<not> b \<le> 0" for a b
      using that by (simp add: fp_div_def)
    have lok: "fp_log a = Inr (binary64 (ln a))" if "\<not> a \<le> 0" for a
      using that by (simp add: fp_log_def)
    from assms False rate lt neg show False
      unfolding calculate_years_to_target_fp_def Let_def
      by (auto simp add: dr lz div dok lok split: if_splits)
  qed
qed

end
